theory Spec2Isabelle
  imports Complex_Main
begin

section \<open>JavaScript numbers\<close>

text \<open>
  A JavaScript number is modelled as a rational or one of the three special values
  \<open>NaN\<close>, \<open>+Infinity\<close> and \<open>-Infinity\<close>. Arithmetic on the finite values is exact:
  the rounding and the overflow of IEEE doubles are not modelled, and \<open>-0\<close> is
  identified with \<open>0\<close>. Every amount, threshold and example of the program below is
  a dyadic number far inside the exact range of a double.
\<close>

datatype jsnum = NaN | PInf | NInf | Fin rat

fun js_neg :: "jsnum \<Rightarrow> jsnum" where
  "js_neg NaN = NaN"
| "js_neg PInf = NInf"
| "js_neg NInf = PInf"
| "js_neg (Fin a) = Fin (- a)"

fun js_add :: "jsnum \<Rightarrow> jsnum \<Rightarrow> jsnum" where
  "js_add NaN _ = NaN"
| "js_add _ NaN = NaN"
| "js_add PInf NInf = NaN"
| "js_add NInf PInf = NaN"
| "js_add PInf _ = PInf"
| "js_add _ PInf = PInf"
| "js_add NInf _ = NInf"
| "js_add _ NInf = NInf"
| "js_add (Fin a) (Fin b) = Fin (a + b)"

definition js_sub :: "jsnum \<Rightarrow> jsnum \<Rightarrow> jsnum" where
  "js_sub a b = js_add a (js_neg b)"

text \<open>The sign of a number that is not \<open>NaN\<close>: \<open>-1\<close>, \<open>0\<close> or \<open>1\<close>.\<close>

fun js_sign :: "jsnum \<Rightarrow> int" where
  "js_sign NaN = 0"
| "js_sign PInf = 1"
| "js_sign NInf = -1"
| "js_sign (Fin a) = (if a < 0 then -1 else if a = 0 then 0 else 1)"

fun js_mul :: "jsnum \<Rightarrow> jsnum \<Rightarrow> jsnum" where
  "js_mul NaN _ = NaN"
| "js_mul _ NaN = NaN"
| "js_mul (Fin a) (Fin b) = Fin (a * b)"
| "js_mul a b =
     (if js_sign a * js_sign b = 0 then NaN
      else if js_sign a * js_sign b > 0 then PInf else NInf)"

text \<open>
  Division: a finite number divided by zero is an infinity of the dividend's sign
  (the zero divisor counts as \<open>+0\<close>), and \<open>0 / 0\<close> is \<open>NaN\<close>.
\<close>

fun js_div :: "jsnum \<Rightarrow> jsnum \<Rightarrow> jsnum" where
  "js_div NaN _ = NaN"
| "js_div _ NaN = NaN"
| "js_div (Fin a) (Fin b) =
     (if b \<noteq> 0 then Fin (a / b)
      else if a = 0 then NaN else if a > 0 then PInf else NInf)"
| "js_div (Fin a) _ = Fin 0"
| "js_div PInf (Fin b) = (if b \<ge> 0 then PInf else NInf)"
| "js_div NInf (Fin b) = (if b \<ge> 0 then NInf else PInf)"
| "js_div _ _ = NaN"

fun js_lt :: "jsnum \<Rightarrow> jsnum \<Rightarrow> bool" where
  "js_lt NaN _ = False"
| "js_lt _ NaN = False"
| "js_lt (Fin a) (Fin b) = (a < b)"
| "js_lt PInf _ = False"
| "js_lt _ PInf = True"
| "js_lt _ NInf = False"
| "js_lt NInf _ = True"

fun js_le :: "jsnum \<Rightarrow> jsnum \<Rightarrow> bool" where
  "js_le NaN _ = False"
| "js_le _ NaN = False"
| "js_le a b = (a = b \<or> js_lt a b)"

definition js_gt :: "jsnum \<Rightarrow> jsnum \<Rightarrow> bool" where
  "js_gt a b = js_lt b a"

definition isNaN :: "jsnum \<Rightarrow> bool" where
  "isNaN a = (a = NaN)"


fun Math_ceil :: "jsnum \<Rightarrow> jsnum" where
  "Math_ceil (Fin a) = Fin (of_int \<lceil>a\<rceil>)"
| "Math_ceil a = a"

text \<open>\<open>Math.round\<close> rounds to the nearest integer, a tie towards \<open>+Infinity\<close>.\<close>

fun Math_round :: "jsnum \<Rightarrow> jsnum" where
  "Math_round (Fin a) = Fin (of_int \<lfloor>a + 1 / 2\<rfloor>)"
| "Math_round a = a"

fun Math_max :: "jsnum \<Rightarrow> jsnum \<Rightarrow> jsnum" where
  "Math_max NaN _ = NaN"
| "Math_max _ NaN = NaN"
| "Math_max a b = (if js_lt a b then b else a)"

fun Math_min :: "jsnum \<Rightarrow> jsnum \<Rightarrow> jsnum" where
  "Math_min NaN _ = NaN"
| "Math_min _ NaN = NaN"
| "Math_min a b = (if js_lt b a then b else a)"

text \<open>Truncation towards zero, of the conversions of a number to an integer.\<close>

definition trunc :: "rat \<Rightarrow> int" where
  "trunc a = (if a < 0 then \<lceil>a\<rceil> else \<lfloor>a\<rfloor>)"

section \<open>JavaScript values\<close>

text \<open>
  The values the functions can receive: what a JSON document holds, and \<open>undefined\<close>.
  An object is the list of its own properties in their order; functions, symbols and
  inherited properties other than the methods of \<open>Object.prototype\<close> and
  \<open>Array.prototype\<close> used by the coercions are outside the model.
\<close>

datatype jsval =
    JUndefined
  | JNull
  | JBool bool
  | JNum jsnum
  | JStr string
  | JArr "jsval list"
  | JObj "(string \<times> jsval) list"

datatype error = TypeError

subsection \<open>Strings to numbers\<close>

text \<open>
  \<open>StringToNumber\<close> of the language: white space around the literal is dropped, the
  empty string is \<open>0\<close>, a literal is a signed decimal literal (with optional fraction
  and exponent), a signed \<open>Infinity\<close>, or an unsigned binary, octal or hexadecimal
  integer; anything else is \<open>NaN\<close>. Strings are ASCII: the white space characters
  beyond ASCII are not modelled.
\<close>

definition is_ws :: "char \<Rightarrow> bool" where
  "is_ws c = (of_char c \<in> set [9, 10, 11, 12, 13, 32 :: nat])"

definition trim :: "string \<Rightarrow> string" where
  "trim s = rev (dropWhile is_ws (rev (dropWhile is_ws s)))"

definition hex_digit_of :: "char \<Rightarrow> nat option" where
  "hex_digit_of c =
     (let n = (of_char c :: nat) in
      if 48 \<le> n \<and> n \<le> 57 then Some (n - 48)
      else if 97 \<le> n \<and> n \<le> 102 then Some (n - 87)
      else if 65 \<le> n \<and> n \<le> 70 then Some (n - 55)
      else None)"

definition digit_in :: "nat \<Rightarrow> char \<Rightarrow> nat option" where
  "digit_in base c =
     (case hex_digit_of c of
        None \<Rightarrow> None
      | Some d \<Rightarrow> if d < base then Some d else None)"

definition is_digit :: "char \<Rightarrow> bool" where
  "is_digit c = (digit_in 10 c \<noteq> None)"

definition digits_val :: "nat \<Rightarrow> nat list \<Rightarrow> nat" where
  "digits_val base ds = foldl (\<lambda>acc d. acc * base + d) 0 ds"

text \<open>The value of a non-empty string of digits of the base, \<open>None\<close> otherwise.\<close>

definition parse_digits :: "nat \<Rightarrow> string \<Rightarrow> nat option" where
  "parse_digits base s =
     (if s = [] then None
      else map_option (digits_val base) (those (map (digit_in base) s)))"

definition split_sign :: "string \<Rightarrow> bool \<times> string" where
  "split_sign s =
     (case s of
        [] \<Rightarrow> (False, s)
      | c # r \<Rightarrow>
          if c = CHR ''-'' then (True, r)
          else if c = CHR ''+'' then (False, r)
          else (False, s))"

text \<open>The exponent part of a decimal literal: nothing, or \<open>e\<close>, a sign and digits.\<close>

definition parse_exponent :: "string \<Rightarrow> int option" where
  "parse_exponent s =
     (case s of
        [] \<Rightarrow> Some 0
      | c # r \<Rightarrow>
          if c = CHR ''e'' \<or> c = CHR ''E'' then
            (case split_sign r of
               (neg, ds) \<Rightarrow>
                 (case parse_digits 10 ds of
                    None \<Rightarrow> None
                  | Some n \<Rightarrow> Some (if neg then - int n else int n)))
          else None)"

definition parse_decimal :: "string \<Rightarrow> jsnum" where
  "parse_decimal s =
     (case split_sign s of
        (neg, u) \<Rightarrow>
          if u = ''Infinity'' then (if neg then NInf else PInf)
          else
            let ip = takeWhile is_digit u;
                r1 = dropWhile is_digit u;
                fp = (case r1 of
                        [] \<Rightarrow> []
                      | c # r \<Rightarrow> if c = CHR ''.'' then takeWhile is_digit r else []);
                r2 = (case r1 of
                        [] \<Rightarrow> []
                      | c # r \<Rightarrow> if c = CHR ''.'' then dropWhile is_digit r else r1)
            in (case (parse_digits 10 (ip @ fp), parse_exponent r2) of
                  (Some n, Some e) \<Rightarrow>
                    let m = (of_nat n / 10 ^ length fp :: rat);
                        v = (if e \<ge> 0 then m * 10 ^ nat e else m / 10 ^ nat (- e))
                    in Fin (if neg then - v else v)
                | _ \<Rightarrow> NaN))"

definition parse_nondecimal :: "string \<Rightarrow> jsnum option" where
  "parse_nondecimal s =
     (case s of
        c0 # c1 # r \<Rightarrow>
          if c0 = CHR ''0'' then
            (let base = (if c1 = CHR ''x'' \<or> c1 = CHR ''X'' then 16
                         else if c1 = CHR ''o'' \<or> c1 = CHR ''O'' then 8
                         else if c1 = CHR ''b'' \<or> c1 = CHR ''B'' then 2
                         else (0::nat))
             in if base = 0 then None
                else Some (case parse_digits base r of
                             None \<Rightarrow> NaN
                           | Some n \<Rightarrow> Fin (of_nat n)))
          else None
      | _ \<Rightarrow> None)"

definition StringToNumber :: "string \<Rightarrow> jsnum" where
  "StringToNumber s =
     (let t = trim s in
      if t = [] then Fin 0
      else (case parse_nondecimal t of
              Some n \<Rightarrow> n
            | None \<Rightarrow> parse_decimal t))"

subsection \<open>Coercion to a number\<close>

text \<open>
  \<open>Number(v)\<close>. An object or an array is first turned into a primitive: \<open>valueOf\<close>
  of \<open>Object.prototype\<close> returns the object itself, so \<open>toString\<close> decides. A plain
  object gives \<open>"[object Object]"\<close>, which is not a number; an object with an own
  property \<open>toString\<close> (never callable here) has no method left and the coercion throws
  a \<open>TypeError\<close>. An array gives the join of its elements with commas, \<open>null\<close> and
  \<open>undefined\<close> as the empty string, and throws when an element does.
\<close>

fun ToPrimitive_throws :: "jsval \<Rightarrow> bool" where
  "ToPrimitive_throws (JObj fs) = (map_of fs ''toString'' \<noteq> None)"
| "ToPrimitive_throws (JArr xs) = list_ex ToPrimitive_throws xs"
| "ToPrimitive_throws _ = False"

text \<open>
  The number of the string \<open>xs.join(",")\<close>, for an array no element of which throws. A
  string with a comma is no literal; a number written out as a string reads back as
  itself.
\<close>

fun array_number :: "jsval list \<Rightarrow> jsnum" where
  "array_number [] = Fin 0"
| "array_number [JUndefined] = Fin 0"
| "array_number [JNull] = Fin 0"
| "array_number [JBool b] = NaN"
| "array_number [JNum n] = n"
| "array_number [JStr s] = StringToNumber s"
| "array_number [JArr ys] = array_number ys"
| "array_number [JObj fs] = NaN"
| "array_number (x # y # zs) = NaN"

fun ToNumber :: "jsval \<Rightarrow> error + jsnum" where
  "ToNumber JUndefined = Inr NaN"
| "ToNumber JNull = Inr (Fin 0)"
| "ToNumber (JBool b) = Inr (Fin (if b then 1 else 0))"
| "ToNumber (JNum n) = Inr n"
| "ToNumber (JStr s) = Inr (StringToNumber s)"
| "ToNumber (JArr xs) =
     (if ToPrimitive_throws (JArr xs) then Inl TypeError else Inr (array_number xs))"
| "ToNumber (JObj fs) =
     (if ToPrimitive_throws (JObj fs) then Inl TypeError else Inr NaN)"

subsection \<open>Reading a property\<close>

text \<open>
  \<open>v.k\<close> for a key that no prototype defines and that is neither an index nor
  \<open>length\<close> (the program reads \<open>amount\<close> and \<open>date\<close>): reading a property of \<open>null\<close>
  or \<open>undefined\<close> throws a \<open>TypeError\<close>, an object gives its own property or
  \<open>undefined\<close>, every other value gives \<open>undefined\<close>.
\<close>

fun get_prop :: "jsval \<Rightarrow> string \<Rightarrow> error + jsval" where
  "get_prop JUndefined k = Inl TypeError"
| "get_prop JNull k = Inl TypeError"
| "get_prop (JObj fs) k = Inr (case map_of fs k of None \<Rightarrow> JUndefined | Some v \<Rightarrow> v)"
| "get_prop _ k = Inr JUndefined"

section \<open>The rewards calculator\<close>

record rewards_config =
  POINTS_PER_DOLLAR_OVER_100 :: jsnum
  POINTS_PER_DOLLAR_50_TO_100 :: jsnum
  THRESHOLD_50 :: jsnum
  THRESHOLD_100 :: jsnum

definition REWARDS_CONFIG :: rewards_config where
  "REWARDS_CONFIG =
     \<lparr> POINTS_PER_DOLLAR_OVER_100 = Fin 2,
       POINTS_PER_DOLLAR_50_TO_100 = Fin 1,
       THRESHOLD_50 = Fin 50,
       THRESHOLD_100 = Fin 100 \<rparr>"

text \<open>
  \<open>calculateRewardPoints\<close>, without its logging. The tiers applied to the coerced
  amount, after the guard for \<open>NaN\<close> and non-positive amounts.
\<close>

definition tier_points :: "jsnum \<Rightarrow> jsnum" where
  "tier_points numAmount =
     (let points = Fin 0 in
      if js_gt numAmount (THRESHOLD_100 REWARDS_CONFIG) then
        let over100 = js_sub numAmount (THRESHOLD_100 REWARDS_CONFIG);
            points = js_add points (js_mul over100 (POINTS_PER_DOLLAR_OVER_100 REWARDS_CONFIG));
            between50And100 = js_sub (THRESHOLD_100 REWARDS_CONFIG) (THRESHOLD_50 REWARDS_CONFIG)
        in js_add points (js_mul between50And100 (POINTS_PER_DOLLAR_50_TO_100 REWARDS_CONFIG))
      else if js_gt numAmount (THRESHOLD_50 REWARDS_CONFIG) then
        let between50And100 = js_sub numAmount (THRESHOLD_50 REWARDS_CONFIG)
        in js_add points (js_mul between50And100 (POINTS_PER_DOLLAR_50_TO_100 REWARDS_CONFIG))
      else points)"

definition calculateRewardPoints :: "jsval \<Rightarrow> error + jsnum" where
  "calculateRewardPoints amount =
     (case ToNumber amount of
        Inl e \<Rightarrow> Inl e
      | Inr numAmount \<Rightarrow>
          if isNaN numAmount \<or> js_le numAmount (Fin 0) then Inr (Fin 0)
          else Inr (Math_round (tier_points numAmount)))"

text \<open>
  \<open>!v\<close> is true for the falsy values: \<open>undefined\<close>, \<open>null\<close>, \<open>false\<close>, \<open>0\<close>, \<open>NaN\<close>
  and the empty string.
\<close>

fun falsy :: "jsval \<Rightarrow> bool" where
  "falsy JUndefined = True"
| "falsy JNull = True"
| "falsy (JBool b) = (\<not> b)"
| "falsy (JNum n) = (n = NaN \<or> n = Fin 0)"
| "falsy (JStr s) = (s = [])"
| "falsy (JArr xs) = False"
| "falsy (JObj fs) = False"

fun Array_isArray :: "jsval \<Rightarrow> bool" where
  "Array_isArray (JArr xs) = True"
| "Array_isArray _ = False"

fun elements :: "jsval \<Rightarrow> jsval list" where
  "elements (JArr xs) = xs"
| "elements _ = []"

text \<open>The guard \<open>!transactions || !Array.isArray(transactions)\<close> of every function.\<close>

definition invalid_array :: "jsval \<Rightarrow> bool" where
  "invalid_array transactions = (falsy transactions \<or> \<not> Array_isArray transactions)"

subsection \<open>The total\<close>

text \<open>
  \<open>transactions.reduce((total, transaction) => total +
  calculateRewardPoints(transaction.amount), 0)\<close>: the accumulator is passed along, and
  an exception of the callback ends the reduction.
\<close>

fun reduce_total :: "jsnum \<Rightarrow> jsval list \<Rightarrow> error + jsnum" where
  "reduce_total tot [] = Inr tot"
| "reduce_total tot (transaction # rest) =
     (case get_prop transaction ''amount'' of
        Inl e \<Rightarrow> Inl e
      | Inr amount \<Rightarrow>
          (case calculateRewardPoints amount of
             Inl e \<Rightarrow> Inl e
           | Inr points \<Rightarrow> reduce_total (js_add tot points) rest))"

definition calculateTotalRewardPoints :: "jsval \<Rightarrow> error + jsnum" where
  "calculateTotalRewardPoints transactions =
     (if invalid_array transactions then Inr (Fin 0)
      else reduce_total (Fin 0) (elements transactions))"

subsection \<open>Dates\<close>

text \<open>
  \<open>new Date(v)\<close>, \<open>getFullYear()\<close> and \<open>getMonth()\<close> belong to the host: which strings
  are dates beyond the ISO formats is left to the implementation, and the year and the
  month are those of the host's time zone. The model takes the host as a parameter: the
  function from a value to the date object built from it, which is either invalid or has
  a local year and a local month index (\<open>0\<close> for January). Building a date from an object
  or an array turns it into a primitive first, and throws where that does.
\<close>

datatype js_date = Invalid_Date | Local_Date int int

type_synonym date_host = "jsval \<Rightarrow> js_date"

definition new_Date :: "date_host \<Rightarrow> jsval \<Rightarrow> error + js_date" where
  "new_Date host v = (if ToPrimitive_throws v then Inl TypeError else Inr (host v))"

text \<open>The getters return an integer, or \<open>NaN\<close> (here \<open>None\<close>) on an invalid date.\<close>

fun getFullYear :: "js_date \<Rightarrow> int option" where
  "getFullYear Invalid_Date = None"
| "getFullYear (Local_Date y m) = Some y"

fun getMonth :: "js_date \<Rightarrow> int option" where
  "getMonth Invalid_Date = None"
| "getMonth (Local_Date y m) = Some m"

fun nat_to_string :: "nat \<Rightarrow> string" where
  "nat_to_string n =
     (if n < 10 then [char_of (48 + n)]
      else nat_to_string (n div 10) @ [char_of (48 + n mod 10)])"

declare nat_to_string.simps [simp del]

text \<open>\<open>String(x)\<close> for an integer or \<open>NaN\<close>.\<close>

fun String_of :: "int option \<Rightarrow> string" where
  "String_of None = ''NaN''"
| "String_of (Some i) =
     (if i < 0 then CHR ''-'' # nat_to_string (nat (- i)) else nat_to_string (nat i))"

definition padStart :: "nat \<Rightarrow> char \<Rightarrow> string \<Rightarrow> string" where
  "padStart n c s = replicate (n - length s) c @ s"

text \<open>
  The key \<open>`${date.getFullYear()}-${String(date.getMonth() + 1).padStart(2, '0')}`\<close>.
\<close>

definition monthYear_of :: "js_date \<Rightarrow> string" where
  "monthYear_of date =
     String_of (getFullYear date) @ ''-'' @
     padStart 2 (CHR ''0'') (String_of (map_option (\<lambda>m. m + 1) (getMonth date)))"

subsection \<open>The points of each month\<close>

text \<open>
  \<open>monthlyPoints\<close> is an object from keys to numbers, kept as the list of its
  properties in insertion order (no key of the form above is an array index, so the
  object's own order is insertion order, and none is a property of \<open>Object.prototype\<close>).
  Assigning to a key that exists keeps its place; a new key goes last.
\<close>

type_synonym points_object = "(string \<times> jsnum) list"

fun obj_set :: "('k \<times> 'v) list \<Rightarrow> 'k \<Rightarrow> 'v \<Rightarrow> ('k \<times> 'v) list" where
  "obj_set [] k v = [(k, v)]"
| "obj_set ((k', v') # ps) k v =
     (if k' = k then (k, v) # ps else (k', v') # obj_set ps k v)"

text \<open>\<open>!monthlyPoints[monthYear]\<close>: the key is missing, or its value is \<open>0\<close> or \<open>NaN\<close>.\<close>

definition not_bucket :: "points_object \<Rightarrow> string \<Rightarrow> bool" where
  "not_bucket monthlyPoints monthYear =
     (case map_of monthlyPoints monthYear of
        None \<Rightarrow> True
      | Some n \<Rightarrow> falsy (JNum n))"

text \<open>
  \<open>monthlyPoints[monthYear] += p\<close>; a missing key would read as \<open>undefined\<close>, and
  \<open>undefined + p\<close> is \<open>NaN\<close>.
\<close>

definition add_to_bucket :: "points_object \<Rightarrow> string \<Rightarrow> jsnum \<Rightarrow> points_object" where
  "add_to_bucket monthlyPoints monthYear p =
     obj_set monthlyPoints monthYear
       (case map_of monthlyPoints monthYear of
          None \<Rightarrow> NaN
        | Some n \<Rightarrow> js_add n p)"

text \<open>The body of the \<open>forEach\<close>, for one transaction.\<close>

definition month_step :: "date_host \<Rightarrow> points_object \<Rightarrow> jsval \<Rightarrow> error + points_object" where
  "month_step host monthlyPoints transaction =
     (case get_prop transaction ''date'' of
        Inl e \<Rightarrow> Inl e
      | Inr d \<Rightarrow>
          (case new_Date host d of
             Inl e \<Rightarrow> Inl e
           | Inr date \<Rightarrow>
               let monthYear = monthYear_of date;
                   monthlyPoints =
                     (if not_bucket monthlyPoints monthYear
                      then obj_set monthlyPoints monthYear (Fin 0)
                      else monthlyPoints)
               in (case get_prop transaction ''amount'' of
                     Inl e \<Rightarrow> Inl e
                   | Inr amount \<Rightarrow>
                       (case calculateRewardPoints amount of
                          Inl e \<Rightarrow> Inl e
                        | Inr p \<Rightarrow> Inr (add_to_bucket monthlyPoints monthYear p)))))"

fun forEach_month :: "date_host \<Rightarrow> points_object \<Rightarrow> jsval list \<Rightarrow> error + points_object" where
  "forEach_month host monthlyPoints [] = Inr monthlyPoints"
| "forEach_month host monthlyPoints (transaction # rest) =
     (case month_step host monthlyPoints transaction of
        Inl e \<Rightarrow> Inl e
      | Inr monthlyPoints' \<Rightarrow> forEach_month host monthlyPoints' rest)"

definition calculateRewardPointsByMonth :: "date_host \<Rightarrow> jsval \<Rightarrow> error + points_object" where
  "calculateRewardPointsByMonth host transactions =
     (if invalid_array transactions then Inr []
      else forEach_month host [] (elements transactions))"

subsection \<open>Transactions with their points\<close>

text \<open>
  The spread \<open>{...transaction}\<close> copies the own enumerable properties: those of an
  object, the indexed elements of an array, the indexed characters of a string, and
  nothing of any other value (\<open>null\<close> and \<open>undefined\<close> included).
\<close>

fun own_props :: "jsval \<Rightarrow> (string \<times> jsval) list" where
  "own_props (JObj fs) = fs"
| "own_props (JArr xs) = zip (map nat_to_string [0..<length xs]) xs"
| "own_props (JStr s) = zip (map nat_to_string [0..<length s]) (map (\<lambda>c. JStr [c]) s)"
| "own_props _ = []"

definition with_points :: "jsval \<Rightarrow> error + jsval" where
  "with_points transaction =
     (let copy = own_props transaction in
      case get_prop transaction ''amount'' of
        Inl e \<Rightarrow> Inl e
      | Inr amount \<Rightarrow>
          (case calculateRewardPoints amount of
             Inl e \<Rightarrow> Inl e
           | Inr p \<Rightarrow> Inr (JObj (obj_set copy ''rewardPoints'' (JNum p)))))"

text \<open>\<open>transactions.map(...)\<close>: an exception of the callback ends the map.\<close>

fun map_with_points :: "jsval list \<Rightarrow> error + jsval list" where
  "map_with_points [] = Inr []"
| "map_with_points (transaction # rest) =
     (case with_points transaction of
        Inl e \<Rightarrow> Inl e
      | Inr t' \<Rightarrow>
          (case map_with_points rest of
             Inl e \<Rightarrow> Inl e
           | Inr rest' \<Rightarrow> Inr (t' # rest')))"

definition addRewardPointsToTransactions :: "jsval \<Rightarrow> error + jsval list" where
  "addRewardPointsToTransactions transactions =
     (if invalid_array transactions then Inr []
      else map_with_points (elements transactions))"

subsection \<open>A host for the examples\<close>

text \<open>
  A host whose time zone is UTC and which reads, of all strings, the date-only ISO form
  \<open>YYYY-MM-DD\<close> with a month and a day that exist; every other string is an invalid
  date for it. A primitive that is not a string is taken as its number of milliseconds
  since 1970, an array as the join of its elements (a string with a comma, and a number
  written out, are not of the form above), and a plain object as \<open>"[object Object]"\<close>.
\<close>

definition leap_year :: "nat \<Rightarrow> bool" where
  "leap_year y = (y mod 4 = 0 \<and> (y mod 100 \<noteq> 0 \<or> y mod 400 = 0))"

definition days_in_month :: "nat \<Rightarrow> nat \<Rightarrow> nat" where
  "days_in_month y m =
     (if m = 2 then (if leap_year y then 29 else 28)
      else if m \<in> set [4, 6, 9, 11] then 30 else 31)"

definition parse_iso_date :: "string \<Rightarrow> js_date" where
  "parse_iso_date s =
     (if length s = 10 \<and> s ! 4 = CHR ''-'' \<and> s ! 7 = CHR ''-'' then
        (case (parse_digits 10 (take 4 s), parse_digits 10 (take 2 (drop 5 s)),
               parse_digits 10 (drop 8 s)) of
           (Some y, Some m, Some d) \<Rightarrow>
             if 1 \<le> m \<and> m \<le> 12 \<and> 1 \<le> d \<and> d \<le> days_in_month y m
             then Local_Date (int y) (int m - 1) else Invalid_Date
         | _ \<Rightarrow> Invalid_Date)
      else Invalid_Date)"

text \<open>
  The year and the month index of a day counted from the first of January 1970, in the
  proleptic Gregorian calendar (by eras of 400 years that start on the first of March).
\<close>

definition civil_from_days :: "int \<Rightarrow> int \<times> int" where
  "civil_from_days d =
     (let z = d + 719468;
          era = z div 146097;
          doe = z - era * 146097;
          yoe = (doe - doe div 1460 + doe div 36524 - doe div 146096) div 365;
          doy = doe - (365 * yoe + yoe div 4 - yoe div 100);
          mp = (5 * doy + 2) div 153;
          m = (if mp < 10 then mp + 3 else mp - 9);
          y = yoe + era * 400 + (if m \<le> 2 then 1 else 0)
      in (y, m - 1))"

text \<open>
  The date of a time value: invalid when the number is not finite or beyond
  \<open>8.64e15\<close> milliseconds, otherwise the day of the truncated number.
\<close>

fun date_of_time :: "jsnum \<Rightarrow> js_date" where
  "date_of_time (Fin t) =
     (if \<bar>t\<bar> > 8640000000000000 then Invalid_Date
      else case civil_from_days (trunc t div 86400000) of (y, m) \<Rightarrow> Local_Date y m)"
| "date_of_time _ = Invalid_Date"

fun utc_host :: "jsval \<Rightarrow> js_date" where
  "utc_host (JStr s) = parse_iso_date s"
| "utc_host (JArr [JStr s]) = parse_iso_date s"
| "utc_host (JArr [JArr ys]) = utc_host (JArr ys)"
| "utc_host (JArr xs) = Invalid_Date"
| "utc_host (JObj fs) = Invalid_Date"
| "utc_host JUndefined = Invalid_Date"
| "utc_host JNull = date_of_time (Fin 0)"
| "utc_host (JBool b) = date_of_time (Fin (if b then 1 else 0))"
| "utc_host (JNum n) = date_of_time n"

section \<open>Pagination\<close>

record pagination_config =
  ITEMS_PER_PAGE :: jsnum
  MAX_PAGES_DISPLAY :: jsnum

definition PAGINATION_CONFIG :: pagination_config where
  "PAGINATION_CONFIG = \<lparr> ITEMS_PER_PAGE = Fin 10, MAX_PAGES_DISPLAY = Fin 5 \<rparr>"

text \<open>
  \<open>xs.slice(start, stop)\<close>: each bound is truncated to an integer (\<open>NaN\<close> is \<open>0\<close>), a
  negative bound counts from the end, and both are clamped into the array.
\<close>

fun slice_index :: "nat \<Rightarrow> jsnum \<Rightarrow> nat" where
  "slice_index len NaN = 0"
| "slice_index len PInf = len"
| "slice_index len NInf = 0"
| "slice_index len (Fin a) =
     (if trunc a < 0 then nat (max (int len + trunc a) 0)
      else nat (min (trunc a) (int len)))"

definition slice :: "'a list \<Rightarrow> jsnum \<Rightarrow> jsnum \<Rightarrow> 'a list" where
  "slice xs start stop =
     (let k = slice_index (length xs) start;
          final = slice_index (length xs) stop
      in take (final - k) (drop k xs))"

record pagination_info =
  items :: "jsval list"
  currentPage :: jsnum
  totalPages :: jsnum
  totalItems :: jsnum
  hasNextPage :: bool
  hasPrevPage :: bool
  startIndex :: jsnum
  endIndex :: jsnum

text \<open>
  \<open>calculatePagination\<close>, without its logging. The page and the page size are numbers;
  a caller that leaves them out gets \<open>1\<close> and \<open>ITEMS_PER_PAGE\<close>. The local variables
  carry a \<open>0\<close> or a \<open>V\<close> where a field of the result has their name.
\<close>

definition calculatePagination :: "jsval \<Rightarrow> jsnum \<Rightarrow> jsnum \<Rightarrow> pagination_info" where
  "calculatePagination itemsV currentPageV itemsPerPage =
     (if invalid_array itemsV then
        \<lparr> items = [], currentPage = Fin 1, totalPages = Fin 0, totalItems = Fin 0,
          hasNextPage = False, hasPrevPage = False, startIndex = Fin 0, endIndex = Fin 0 \<rparr>
      else
        let totalItemsV = Fin (of_nat (length (elements itemsV)));
            totalPagesV = Math_ceil (js_div totalItemsV itemsPerPage);
            validCurrentPage = Math_max (Fin 1) (Math_min currentPageV totalPagesV);
            startIndex0 = js_mul (js_sub validCurrentPage (Fin 1)) itemsPerPage;
            endIndex0 = Math_min (js_add startIndex0 itemsPerPage) totalItemsV;
            paginatedItems = slice (elements itemsV) startIndex0 endIndex0
        in \<lparr> items = paginatedItems, currentPage = validCurrentPage,
             totalPages = totalPagesV, totalItems = totalItemsV,
             hasNextPage = js_lt validCurrentPage totalPagesV,
             hasPrevPage = js_gt validCurrentPage (Fin 1),
             startIndex = js_add startIndex0 (Fin 1), endIndex = endIndex0 \<rparr>)"

definition calculatePagination_default :: "jsval \<Rightarrow> pagination_info" where
  "calculatePagination_default itemsV =
     calculatePagination itemsV (Fin 1) (ITEMS_PER_PAGE PAGINATION_CONFIG)"




section \<open>The vocabulary of the specification\<close>

text \<open>
  The specification's tiered value of a valid amount: \<open>2(a - 100) + 50\<close> above \<open>100\<close>,
  \<open>a - 50\<close> above \<open>50\<close>, and \<open>0\<close> up to \<open>50\<close>.
\<close>

definition spec_tiered_value :: "rat \<Rightarrow> rat" where
  "spec_tiered_value a =
     (if a > 100 then 2 * (a - 100) + 50 else if a > 50 then a - 50 else 0)"

text \<open>
  Half-up rounding in the specification's words: the nearest integer, the upper one
  when the fractional part is a half or more.
\<close>

definition spec_round_half_up :: "rat \<Rightarrow> int" where
  "spec_round_half_up q = (if q - of_int \<lfloor>q\<rfloor> < 1 / 2 then \<lfloor>q\<rfloor> else \<lfloor>q\<rfloor> + 1)"

text \<open>A record is an object; \<open>field t k\<close> is the value of \<open>t.k\<close> for a record \<open>t\<close>.\<close>

fun is_record :: "jsval \<Rightarrow> bool" where
  "is_record (JObj fs) = True"
| "is_record _ = False"

fun field :: "jsval \<Rightarrow> string \<Rightarrow> jsval" where
  "field (JObj fs) k = (case map_of fs k of None \<Rightarrow> JUndefined | Some v \<Rightarrow> v)"
| "field _ k = JUndefined"

text \<open>
  A record whose amount, and one whose date, can be turned into a primitive: a
  primitive, or an array or object with no own \<open>toString\<close> property inside. A missing
  field is \<open>undefined\<close>, a primitive.
\<close>

definition plain_amount :: "jsval \<Rightarrow> bool" where
  "plain_amount t = (is_record t \<and> \<not> ToPrimitive_throws (field t ''amount''))"


text \<open>\<open>pointsForAmount(t.amount)\<close>, the points of one element.\<close>

definition points_of_record :: "jsval \<Rightarrow> error + jsnum" where
  "points_of_record t =
     (case get_prop t ''amount'' of
        Inl e \<Rightarrow> Inl e
      | Inr amount \<Rightarrow> calculateRewardPoints amount)"

text \<open>The sum of a sequence of numbers, by the addition of the language.\<close>

definition sum_points :: "jsnum list \<Rightarrow> jsnum" where
  "sum_points ps = foldr js_add ps (Fin 0)"

text \<open>
  An element the callbacks can read: it is neither \<open>null\<close> nor \<open>undefined\<close>, and its
  amount, respectively its date, can be turned into a primitive. Every record with a
  plain amount is one, and so is a number or a string (its amount is \<open>undefined\<close>).
\<close>

definition reads_amount :: "jsval \<Rightarrow> bool" where
  "reads_amount t =
     (t \<noteq> JUndefined \<and> t \<noteq> JNull \<and> \<not> ToPrimitive_throws (field t ''amount''))"

definition reads_date :: "jsval \<Rightarrow> bool" where
  "reads_date t =
     (t \<noteq> JUndefined \<and> t \<noteq> JNull \<and> \<not> ToPrimitive_throws (field t ''date''))"

text \<open>A number of points is never \<open>NaN\<close> and never negative.\<close>

fun nonneg_num :: "jsnum \<Rightarrow> bool" where
  "nonneg_num (Fin q) = (0 \<le> q)"
| "nonneg_num PInf = True"
| "nonneg_num _ = False"

text \<open>
  The record with its points, in the specification's words: the fields of the
  transaction other than \<open>rewardPoints\<close> are those of the result other than
  \<open>rewardPoints\<close>, in their order, and \<open>rewardPoints\<close> of the result is
  \<open>pointsForAmount(amount)\<close>.
\<close>

definition enriched :: "jsval \<Rightarrow> jsval \<Rightarrow> bool" where
  "enriched t r =
     (case points_of_record t of
        Inl e \<Rightarrow> False
      | Inr p \<Rightarrow>
          is_record t \<and> is_record r
          \<and> filter (\<lambda>kv. fst kv \<noteq> ''rewardPoints'') (own_props r)
              = filter (\<lambda>kv. fst kv \<noteq> ''rewardPoints'') (own_props t)
          \<and> map_of (own_props r) ''rewardPoints'' = Some (JNum p))"

text \<open>
  The monthly grouping in the specification's words. The key of a transaction is the
  key of the date the host builds from its \<open>date\<close>. Of a list of (key, points) entries,
  the bucket of a key is the sum of the points of the entries with that key, and the
  mapping has one bucket for each key, in the order in which the keys are first seen.
\<close>

definition key_of :: "date_host \<Rightarrow> jsval \<Rightarrow> string" where
  "key_of host t = monthYear_of (host (field t ''date''))"

fun first_seen :: "'a list \<Rightarrow> 'a list" where
  "first_seen [] = []"
| "first_seen (x # xs) = x # removeAll x (first_seen xs)"

definition bucket_sum :: "(string \<times> jsnum) list \<Rightarrow> string \<Rightarrow> jsnum" where
  "bucket_sum es k = sum_points (map snd (filter (\<lambda>e. fst e = k) es))"

definition spec_by_month :: "(string \<times> jsnum) list \<Rightarrow> points_object" where
  "spec_by_month es = map (\<lambda>k. (k, bucket_sum es k)) (first_seen (map fst es))"




definition amount_only :: "jsval \<Rightarrow> jsval" where
  "amount_only a = JObj [(''amount'', a)]"

text \<open>Page numbers, page sizes and positions are integers: the number of an integer.\<close>

definition int_num :: "int \<Rightarrow> jsnum" where
  "int_num i = Fin (of_int i)"


text \<open>
  The page in the specification's words, for a page size \<open>k\<close> and a requested page
  \<open>p\<close>: the positions \<open>a\<close> to \<open>b\<close> of a sequence, counted from \<open>1\<close>, both included;
  the number of pages \<open>ceil(totalItems / itemsPerPage)\<close>; the requested page clamped into
  \<open>[1, totalPages]\<close>, page \<open>1\<close> when there is no page; and the result.
\<close>

definition spec_sub_sequence :: "'a list \<Rightarrow> int \<Rightarrow> int \<Rightarrow> 'a list" where
  "spec_sub_sequence xs a b = map (\<lambda>i. xs ! nat (i - 1)) [a..b]"

definition spec_total_pages :: "nat \<Rightarrow> int \<Rightarrow> int" where
  "spec_total_pages n k = \<lceil>(of_nat n :: rat) / of_int k\<rceil>"

definition spec_effective_page :: "int \<Rightarrow> int \<Rightarrow> int" where
  "spec_effective_page p tp = (if tp = 0 then 1 else if p < 1 then 1 else if tp < p then tp else p)"

definition spec_paginate :: "jsval list \<Rightarrow> int \<Rightarrow> int \<Rightarrow> pagination_info" where
  "spec_paginate xs p k =
     (let n = length xs;
          tp = spec_total_pages n k;
          ep = spec_effective_page p tp;
          si = (ep - 1) * k + 1;
          ei = min (si + k - 1) (int n)
      in \<lparr> items = spec_sub_sequence xs si ei,
           currentPage = int_num ep, totalPages = int_num tp, totalItems = int_num (int n),
           hasNextPage = (ep < tp), hasPrevPage = (1 < ep),
           startIndex = int_num si, endIndex = int_num ei \<rparr>)"

text \<open>The items of the examples: the numbers \<open>1\<close> to \<open>n\<close>.\<close>

definition numbered_items :: "nat \<Rightarrow> jsval list" where
  "numbered_items n = map (\<lambda>i. JNum (int_num i)) [1..int n]"

section \<open>Properties of the reward points\<close>

lemma floor_add_half: "\<lfloor>q + 1 / 2\<rfloor> = spec_round_half_up (q::rat)"
  unfolding spec_round_half_up_def by (auto simp: floor_eq_iff) linarith+

lemma spec_round_half_up_nearest: "\<bar>q - of_int (spec_round_half_up q)\<bar> \<le> 1 / 2"
proof -
  have "of_int \<lfloor>q\<rfloor> \<le> q" "q < of_int \<lfloor>q\<rfloor> + 1" by linarith+
  then show ?thesis unfolding spec_round_half_up_def by (auto simp: abs_le_iff)
qed

lemma spec_tiered_value_mono: "a \<le> b \<Longrightarrow> spec_tiered_value a \<le> spec_tiered_value b"
  by (auto simp: spec_tiered_value_def)

lemma spec_tiered_value_nonneg: "0 \<le> spec_tiered_value a"
  by (auto simp: spec_tiered_value_def)

lemma spec_round_half_up_mono: "p \<le> q \<Longrightarrow> spec_round_half_up p \<le> spec_round_half_up q"
  unfolding floor_add_half [symmetric] by (rule floor_mono) simp

lemma spec_round_half_up_nonneg: "0 \<le> q \<Longrightarrow> 0 \<le> spec_round_half_up q"
  unfolding floor_add_half [symmetric] by simp

lemma tier_points_Fin: "tier_points (Fin a) = Fin (spec_tiered_value a)"
  by (simp add: tier_points_def spec_tiered_value_def REWARDS_CONFIG_def js_gt_def js_sub_def)

lemma tier_points_PInf: "tier_points PInf = PInf"
  by (simp add: tier_points_def REWARDS_CONFIG_def js_gt_def js_sub_def)

text \<open>The result of \<open>calculateRewardPoints\<close>, by the number its argument coerces to.\<close>

lemma points_of_Fin:
  assumes "ToNumber v = Inr (Fin a)"
  shows "calculateRewardPoints v =
           Inr (Fin (of_int (spec_round_half_up (spec_tiered_value a))))"
proof (cases "a \<le> 0")
  case True
  then have "spec_tiered_value a = 0" by (simp add: spec_tiered_value_def)
  with True assms show ?thesis
    by (simp add: calculateRewardPoints_def isNaN_def spec_round_half_up_def)
next
  case False
  with assms show ?thesis
    by (simp add: calculateRewardPoints_def isNaN_def tier_points_Fin floor_add_half)
qed

lemma points_of_PInf: "ToNumber v = Inr PInf \<Longrightarrow> calculateRewardPoints v = Inr PInf"
  by (simp add: calculateRewardPoints_def isNaN_def tier_points_PInf)

lemma points_of_NInf: "ToNumber v = Inr NInf \<Longrightarrow> calculateRewardPoints v = Inr (Fin 0)"
  by (simp add: calculateRewardPoints_def isNaN_def)

lemma points_of_NaN: "ToNumber v = Inr NaN \<Longrightarrow> calculateRewardPoints v = Inr (Fin 0)"
  by (simp add: calculateRewardPoints_def isNaN_def)

lemma points_of_throw: "ToNumber v = Inl e \<Longrightarrow> calculateRewardPoints v = Inl e"
  by (simp add: calculateRewardPoints_def)



text \<open>
  C8. \<open>calculateRewardPoints\<close> is non-decreasing on the amounts from \<open>0\<close> up (the
  comparison is the language's \<open>\<le>\<close>, so \<open>Infinity\<close> is covered and \<open>NaN\<close> compares
  with nothing), and every amount up to \<open>50\<close> gives \<open>0\<close>.
\<close>

theorem calculateRewardPoints_monotone:
  "(\<forall>a b. js_le (Fin 0) a \<and> js_le a b \<longrightarrow>
      (\<exists>p q. calculateRewardPoints (JNum a) = Inr p
            \<and> calculateRewardPoints (JNum b) = Inr q \<and> js_le p q))
   \<and> (\<forall>a. js_le a (Fin 50) \<longrightarrow> calculateRewardPoints (JNum a) = Inr (Fin 0))"
proof (intro conjI allI impI)
  fix a b assume h: "js_le (Fin 0) a \<and> js_le a b"
  show "\<exists>p q. calculateRewardPoints (JNum a) = Inr p
            \<and> calculateRewardPoints (JNum b) = Inr q \<and> js_le p q"
  proof (cases a)
    case (Fin x)
    show ?thesis
    proof (cases b)
      case (Fin y)
      with h \<open>a = Fin x\<close> have "x \<le> y" by auto
      then have "spec_round_half_up (spec_tiered_value x)
                   \<le> spec_round_half_up (spec_tiered_value y)"
        by (intro spec_round_half_up_mono spec_tiered_value_mono)
      then show ?thesis using Fin \<open>a = Fin x\<close>
        by (auto simp: points_of_Fin)
    next
      case PInf
      then show ?thesis using \<open>a = Fin x\<close> by (simp add: points_of_Fin points_of_PInf)
    qed (use h \<open>a = Fin x\<close> in auto)
  next
    case PInf
    with h have "b = PInf" by (cases b) auto
    with PInf show ?thesis by (simp add: points_of_PInf)
  qed (use h in auto)
next
  fix a assume h: "js_le a (Fin 50)"
  show "calculateRewardPoints (JNum a) = Inr (Fin 0)"
  proof (cases a)
    case (Fin x)
    with h have "x \<le> 50" by auto
    then show ?thesis using Fin
      by (simp add: points_of_Fin spec_tiered_value_def spec_round_half_up_def)
  qed (use h in \<open>auto simp: points_of_NInf\<close>)
qed

theorem calculateRewardPoints_monotone_witness:
  "js_le (Fin 0) (Fin 75) \<and> js_le (Fin 75) (Fin 120)
   \<and> calculateRewardPoints (JNum (Fin 75)) = Inr (Fin 25)
   \<and> calculateRewardPoints (JNum (Fin 120)) = Inr (Fin 90)
   \<and> js_le (Fin 25) (Fin 90)
   \<and> js_le (Fin 45) (Fin 50) \<and> calculateRewardPoints (JNum (Fin 45)) = Inr (Fin 0)"
proof -
  have a: "calculateRewardPoints (JNum (Fin 75)) = Inr (Fin 25)"
    by (simp add: points_of_Fin spec_tiered_value_def floor_add_half [symmetric] floor_eq_iff)
  have b: "calculateRewardPoints (JNum (Fin 120)) = Inr (Fin 90)"
    by (simp add: points_of_Fin spec_tiered_value_def floor_add_half [symmetric] floor_eq_iff)
  from calculateRewardPoints_monotone
  have "\<exists>p q. calculateRewardPoints (JNum (Fin 75)) = Inr p
            \<and> calculateRewardPoints (JNum (Fin 120)) = Inr q \<and> js_le p q"
    and c: "calculateRewardPoints (JNum (Fin 45)) = Inr (Fin 0)" by simp_all
  then have "js_le (Fin 25) (Fin 90)" using a b by auto
  with a b c show ?thesis by simp
qed





section \<open>Properties of the total\<close>

lemma js_add_assoc: "js_add (js_add a b) c = js_add a (js_add b c)"
  by (cases a; cases b; cases c) simp_all


lemma js_add_zero [simp]: "js_add (Fin 0) a = a" "js_add a (Fin 0) = a"
  by (cases a; simp)+

lemma sum_points_Nil [simp]: "sum_points [] = Fin 0"
  by (simp add: sum_points_def)

lemma sum_points_Cons [simp]: "sum_points (p # ps) = js_add p (sum_points ps)"
  by (simp add: sum_points_def)

lemma sum_points_append: "sum_points (ps @ qs) = js_add (sum_points ps) (sum_points qs)"
  by (induction ps) (simp_all add: js_add_assoc)

lemma sum_points_Fin: "sum_points (map Fin qs) = Fin (sum_list qs)"
  by (induction qs) simp_all

lemma get_prop_field:
  "t \<noteq> JUndefined \<Longrightarrow> t \<noteq> JNull \<Longrightarrow> get_prop t k = Inr (field t k)"
  by (cases t) simp_all


lemma plain_amount_reads: "plain_amount t \<Longrightarrow> reads_amount t"
  by (cases t) (simp_all add: plain_amount_def reads_amount_def)


lemma ToNumber_returns: "\<not> ToPrimitive_throws v \<Longrightarrow> \<exists>n. ToNumber v = Inr n"
  by (cases v) simp_all

lemma ToNumber_throws: "ToPrimitive_throws v \<Longrightarrow> ToNumber v = Inl TypeError"
  by (cases v) simp_all

lemma points_returns: "\<exists>p. calculateRewardPoints v = Inr p" if "\<not> ToPrimitive_throws v"
proof -
  from ToNumber_returns [OF that] obtain n where "ToNumber v = Inr n" ..
  then show ?thesis by (simp add: calculateRewardPoints_def)
qed

lemma points_of_record_returns:
  "reads_amount t \<Longrightarrow> \<exists>p. points_of_record t = Inr p"
  by (simp add: reads_amount_def points_of_record_def get_prop_field points_returns)

lemma all_points_return:
  "list_all reads_amount ts \<Longrightarrow> \<exists>ps. map points_of_record ts = map Inr ps"
proof (induction ts)
  case Nil
  then show ?case by simp
next
  case (Cons t ts)
  from Cons obtain ps where "map points_of_record ts = map Inr ps" by auto
  moreover from Cons.prems obtain p where "points_of_record t = Inr p"
    using points_of_record_returns [of t] by auto
  ultimately have "points_of_record t = Inr p" "map points_of_record ts = map Inr ps" by simp_all
  then have "map points_of_record (t # ts) = map Inr (p # ps)" by simp
  then show ?case by blast
qed


lemma not_array_invalid: "\<not> Array_isArray v \<Longrightarrow> invalid_array v"
  by (simp add: invalid_array_def)

lemma array_valid [simp]: "\<not> invalid_array (JArr ts)"
  by (simp add: invalid_array_def)



section \<open>Properties of the monthly grouping\<close>

lemma points_nonneg: "calculateRewardPoints v = Inr p \<Longrightarrow> nonneg_num p"
proof (cases "ToNumber v")
  case (Inl e)
  assume "calculateRewardPoints v = Inr p"
  with Inl show ?thesis by (simp add: points_of_throw)
next
  case (Inr n)
  assume r: "calculateRewardPoints v = Inr p"
  show ?thesis
  proof (cases n)
    case (Fin a)
    with Inr r points_of_Fin [of v a]
      spec_round_half_up_nonneg [OF spec_tiered_value_nonneg, of a]
    show ?thesis by auto
  qed (use Inr r in \<open>auto simp: points_of_PInf points_of_NInf points_of_NaN\<close>)
qed

lemma points_of_record_nonneg: "points_of_record t = Inr p \<Longrightarrow> nonneg_num p"
  by (auto simp: points_of_record_def points_nonneg split: sum.splits)

lemma nonneg_js_add: "nonneg_num a \<Longrightarrow> nonneg_num b \<Longrightarrow> nonneg_num (js_add a b)"
  by (cases a; cases b) simp_all

lemma nonneg_sum_points: "list_all nonneg_num ps \<Longrightarrow> nonneg_num (sum_points ps)"
  by (induction ps) (simp_all add: nonneg_js_add)

lemma nonneg_not_NaN: "nonneg_num a \<Longrightarrow> a \<noteq> NaN"
  by auto

lemma nonneg_bucket_sum: "list_all nonneg_num (map snd es) \<Longrightarrow> nonneg_num (bucket_sum es k)"
  unfolding bucket_sum_def by (rule nonneg_sum_points) (simp add: list_all_iff)

text \<open>Assignment to a property.\<close>

lemma map_of_obj_set: "map_of (obj_set m k v) = (map_of m)(k \<mapsto> v)"
  by (induction m) (auto simp: fun_eq_iff)

lemma obj_set_new: "k \<notin> fst ` set m \<Longrightarrow> obj_set m k v = m @ [(k, v)]"
  by (induction m) auto

lemma obj_set_same: "map_of m k = Some v \<Longrightarrow> obj_set m k v = m"
  by (induction m) (auto split: if_splits)

lemma obj_set_twice: "obj_set (obj_set m k v) k w = obj_set m k w"
  by (induction m) auto

lemma obj_set_snoc: "k \<notin> fst ` set m \<Longrightarrow> obj_set (m @ [(k, v)]) k w = m @ [(k, w)]"
  by (induction m) auto

lemma map_of_snoc: "k \<notin> fst ` set m \<Longrightarrow> map_of (m @ [(k, v)]) k = Some v"
  by (induction m) auto

lemma obj_set_map:
  "distinct ks \<Longrightarrow> k \<in> set ks \<Longrightarrow>
     obj_set (map (\<lambda>k'. (k', f k')) ks) k v = map (\<lambda>k'. (k', if k' = k then v else f k')) ks"
  by (induction ks) auto

text \<open>The order of first occurrence, and the buckets when an entry is added.\<close>

lemma set_first_seen [simp]: "set (first_seen xs) = set xs"
  by (induction xs) auto

lemma distinct_first_seen [simp]: "distinct (first_seen xs)"
  by (induction xs) (auto simp: distinct_removeAll)

lemma first_seen_snoc:
  "first_seen (xs @ [x]) = (if x \<in> set xs then first_seen xs else first_seen xs @ [x])"
  by (induction xs) auto

lemma bucket_sum_snoc:
  "bucket_sum (es @ [(k, p)]) k' =
     (if k' = k then js_add (bucket_sum es k) p else bucket_sum es k')"
  by (simp add: bucket_sum_def sum_points_append)

lemma bucket_sum_absent: "k \<notin> fst ` set es \<Longrightarrow> bucket_sum es k = Fin 0"
proof -
  assume "k \<notin> fst ` set es"
  then have "filter (\<lambda>e. fst e = k) es = []" by (auto simp: filter_empty_conv)
  then show ?thesis by (simp add: bucket_sum_def)
qed

lemma map_of_spec_by_month:
  "map_of (spec_by_month es) k =
     (if k \<in> fst ` set es then Some (bucket_sum es k) else None)"
proof -
  have "map_of (map (\<lambda>k. (k, f k)) ks) k = (if k \<in> set ks then Some (f k) else None)"
    for f :: "string \<Rightarrow> jsnum" and ks
    by (induction ks) auto
  then show ?thesis by (simp add: spec_by_month_def)
qed

lemma keys_spec_by_month: "map fst (spec_by_month es) = first_seen (map fst es)"
  by (simp add: spec_by_month_def comp_def)

lemma spec_by_month_snoc:
  "spec_by_month (es @ [(k, p)]) =
     (if k \<in> fst ` set es
      then obj_set (spec_by_month es) k (js_add (bucket_sum es k) p)
      else spec_by_month es @ [(k, p)])"
proof (cases "k \<in> fst ` set es")
  case True
  then have "k \<in> set (first_seen (map fst es))" by simp
  from obj_set_map [OF distinct_first_seen this, of "bucket_sum es"] True
  show ?thesis
    by (simp add: spec_by_month_def first_seen_snoc bucket_sum_snoc)
next
  case False
  then have "bucket_sum es k = Fin 0" by (rule bucket_sum_absent)
  with False show ?thesis
    by (auto simp: spec_by_month_def first_seen_snoc bucket_sum_snoc)
qed

lemma month_step_spec:
  assumes t: "reads_date t" and p: "points_of_record t = Inr p"
    and g: "list_all nonneg_num (map snd es)"
  shows "month_step host (spec_by_month es) t = Inr (spec_by_month (es @ [(key_of host t, p)]))"
proof -
  let ?k = "key_of host t" and ?m = "spec_by_month es"
  from t have d: "get_prop t ''date'' = Inr (field t ''date'')"
    and a: "get_prop t ''amount'' = Inr (field t ''amount'')"
    and nd: "new_Date host (field t ''date'') = Inr (host (field t ''date''))"
    by (simp_all add: reads_date_def get_prop_field new_Date_def)
  from p a have c: "calculateRewardPoints (field t ''amount'') = Inr p"
    by (simp add: points_of_record_def)
  show ?thesis
  proof (cases "?k \<in> fst ` set es")
    case False
    then have new: "?k \<notin> fst ` set ?m"
      using keys_spec_by_month [of es] by (metis set_first_seen set_map)
    from False have "not_bucket ?m ?k"
      by (simp add: not_bucket_def map_of_spec_by_month)
    moreover have "add_to_bucket (obj_set ?m ?k (Fin 0)) ?k p = ?m @ [(?k, p)]"
      unfolding add_to_bucket_def obj_set_new [OF new] map_of_snoc [OF new] obj_set_snoc [OF new]
      by simp
    ultimately show ?thesis using False d a nd c
      by (simp add: month_step_def key_of_def spec_by_month_snoc Let_def)
  next
    case True
    let ?old = "bucket_sum es ?k"
    from True have mo: "map_of ?m ?k = Some ?old" by (simp add: map_of_spec_by_month)
    have "?old \<noteq> NaN" using nonneg_bucket_sum [OF g] by (rule nonneg_not_NaN)
    then have nb: "not_bucket ?m ?k \<Longrightarrow> ?old = Fin 0"
      by (simp add: not_bucket_def mo)
    have same: "(if not_bucket ?m ?k then obj_set ?m ?k (Fin 0) else ?m) = ?m"
      using nb mo by (auto simp: obj_set_same)
    have "add_to_bucket ?m ?k p = obj_set ?m ?k (js_add ?old p)"
      by (simp add: add_to_bucket_def mo)
    with same True d a nd c show ?thesis
      by (simp add: month_step_def key_of_def [symmetric] spec_by_month_snoc Let_def)
  qed
qed

lemma forEach_month_spec:
  assumes "list_all reads_date ts" and "map points_of_record ts = map Inr ps"
    and "list_all nonneg_num (map snd es)"
  shows "forEach_month host (spec_by_month es) ts =
           Inr (spec_by_month (es @ zip (map (key_of host) ts) ps))"
  using assms
proof (induction ts arbitrary: ps es)
  case Nil
  then show ?case by simp
next
  case (Cons t ts)
  then obtain p ps' where ps: "ps = p # ps'" "points_of_record t = Inr p"
    "map points_of_record ts = map Inr ps'"
    by (cases ps) auto
  from Cons.prems have rt: "reads_date t" and rts: "list_all reads_date ts" by simp_all
  have g: "list_all nonneg_num (map snd (es @ [(key_of host t, p)]))"
    using Cons.prems(3) points_of_record_nonneg [OF ps(2)] by simp
  from month_step_spec [OF rt ps(2) Cons.prems(3), of host] Cons.IH [OF rts ps(3) g] ps(1)
  show ?case by simp
qed











lemma forEach_month_returns:
  assumes "list_all reads_amount ts" and "list_all reads_date ts"
  shows "\<exists>ps. map points_of_record ts = map Inr ps
        \<and> calculateRewardPointsByMonth host (JArr ts)
            = Inr (spec_by_month (zip (map (key_of host) ts) ps))"
proof -
  from all_points_return [OF assms(1)] obtain ps
    where ps: "map points_of_record ts = map Inr ps" ..
  have "spec_by_month [] = []" by (simp add: spec_by_month_def)
  with forEach_month_spec [OF assms(2) ps, of "[]" host]
  have "calculateRewardPointsByMonth host (JArr ts)
          = Inr (spec_by_month (zip (map (key_of host) ts) ps))"
    by (simp add: calculateRewardPointsByMonth_def)
  with ps show ?thesis by blast
qed







section \<open>Which inputs make the operations throw\<close>

lemma points_returns_iff: "(\<exists>p. calculateRewardPoints v = Inr p) \<longleftrightarrow> \<not> ToPrimitive_throws v"
proof
  assume "\<exists>p. calculateRewardPoints v = Inr p"
  then show "\<not> ToPrimitive_throws v"
    using ToNumber_throws [of v] by (auto simp: points_of_throw)
qed (rule points_returns)

lemma get_prop_returns: "get_prop t k = Inr a \<Longrightarrow> t \<noteq> JUndefined \<and> t \<noteq> JNull \<and> a = field t k"
  by (cases t) auto

lemma points_of_record_reads: "points_of_record t = Inr p \<Longrightarrow> reads_amount t"
proof -
  assume a: "points_of_record t = Inr p"
  then obtain v where v: "get_prop t ''amount'' = Inr v" "calculateRewardPoints v = Inr p"
    by (auto simp: points_of_record_def split: sum.splits)
  from v(2) have "\<not> ToPrimitive_throws v" using points_returns_iff by blast
  with get_prop_returns [OF v(1)] show ?thesis by (simp add: reads_amount_def)
qed

lemma points_of_record_returns_iff:
  "(\<exists>p. points_of_record t = Inr p) \<longleftrightarrow> reads_amount t"
  using points_of_record_reads points_of_record_returns by blast

lemma reduce_total_returns_iff:
  "(\<exists>n. reduce_total acc ts = Inr n) \<longleftrightarrow> list_all reads_amount ts"
proof (induction ts arbitrary: acc)
  case Nil
  then show ?case by simp
next
  case (Cons t ts)
  show ?case
  proof (cases "points_of_record t")
    case (Inl e)
    then have "\<not> reads_amount t" using points_of_record_returns_iff [of t] by auto
    moreover from Inl have "reduce_total acc (t # ts) = Inl e"
      by (auto simp: points_of_record_def split: sum.splits)
    ultimately show ?thesis by simp
  next
    case (Inr p)
    then have "reads_amount t" by (rule points_of_record_reads)
    moreover from Inr have "reduce_total acc (t # ts) = reduce_total (js_add acc p) ts"
      by (auto simp: points_of_record_def split: sum.splits)
    ultimately show ?thesis using Cons.IH [of "js_add acc p"] by simp
  qed
qed

lemma month_step_reads:
  "month_step host m t = Inr m' \<Longrightarrow> reads_amount t \<and> reads_date t"
proof -
  assume a: "month_step host m t = Inr m'"
  then obtain d where d: "get_prop t ''date'' = Inr d"
    by (auto simp: month_step_def split: sum.splits)
  with a obtain dt where dt: "new_Date host d = Inr dt"
    by (auto simp: month_step_def split: sum.splits)
  from d dt a obtain v where v: "get_prop t ''amount'' = Inr v"
    by (auto simp: month_step_def Let_def split: sum.splits)
  from d dt v a obtain p where p: "calculateRewardPoints v = Inr p"
    by (auto simp: month_step_def Let_def split: sum.splits)
  from v p have "points_of_record t = Inr p" by (simp add: points_of_record_def)
  then have "reads_amount t" by (rule points_of_record_reads)
  moreover from dt have "\<not> ToPrimitive_throws d"
    by (auto simp: new_Date_def split: if_splits)
  with get_prop_returns [OF d] have "reads_date t" by (simp add: reads_date_def)
  ultimately show ?thesis ..
qed

lemma forEach_month_reads:
  "forEach_month host m ts = Inr m' \<Longrightarrow> list_all reads_amount ts \<and> list_all reads_date ts"
proof (induction ts arbitrary: m)
  case Nil
  then show ?case by simp
next
  case (Cons t ts)
  then obtain m1 where s: "month_step host m t = Inr m1" "forEach_month host m1 ts = Inr m'"
    by (auto split: sum.splits)
  from month_step_reads [OF s(1)] Cons.IH [OF s(2)] show ?case by simp
qed

lemma with_points_reads:
  assumes "reads_amount t"
  shows "\<exists>p. points_of_record t = Inr p
           \<and> with_points t = Inr (JObj (obj_set (own_props t) ''rewardPoints'' (JNum p)))"
proof -
  from points_of_record_returns [OF assms] obtain p where p: "points_of_record t = Inr p" ..
  then have "with_points t = Inr (JObj (obj_set (own_props t) ''rewardPoints'' (JNum p)))"
    by (auto simp: with_points_def points_of_record_def split: sum.splits)
  with p show ?thesis by blast
qed

lemma with_points_returns: "with_points t = Inr r \<Longrightarrow> reads_amount t"
proof -
  assume "with_points t = Inr r"
  then obtain p where "points_of_record t = Inr p"
    by (auto simp: with_points_def points_of_record_def split: sum.splits)
  then show ?thesis by (rule points_of_record_reads)
qed

lemma map_with_points_returns_iff:
  "(\<exists>rs. map_with_points ts = Inr rs) \<longleftrightarrow> list_all reads_amount ts"
proof (induction ts)
  case Nil
  then show ?case by simp
next
  case (Cons t ts)
  show ?case
  proof (cases "with_points t")
    case (Inl e)
    then have "\<not> reads_amount t" using with_points_reads [of t] by auto
    with Inl show ?thesis by simp
  next
    case (Inr r)
    then have "reads_amount t" by (rule with_points_returns)
    with Inr Cons.IH show ?thesis by (auto split: sum.splits)
  qed
qed

text \<open>
  C7, as the code has it. \<open>calculateRewardPoints\<close> returns exactly on the values that can
  be turned into a primitive. On a value that is not an array the three operations on
  collections return \<open>0\<close>, the empty mapping and the empty sequence. On an array they
  return exactly when every element can be read: it is neither \<open>null\<close> nor \<open>undefined\<close>
  and its amount (for the months, also its date) can be turned into a primitive.
\<close>

theorem operations_return:
  "(\<forall>v. (\<exists>p. calculateRewardPoints v = Inr p) \<longleftrightarrow> \<not> ToPrimitive_throws v)
   \<and> (\<forall>v. \<not> Array_isArray v \<longrightarrow>
         calculateTotalRewardPoints v = Inr (Fin 0)
         \<and> calculateRewardPointsByMonth host v = Inr []
         \<and> addRewardPointsToTransactions v = Inr [])
   \<and> (\<forall>ts. (\<exists>n. calculateTotalRewardPoints (JArr ts) = Inr n) \<longleftrightarrow> list_all reads_amount ts)
   \<and> (\<forall>ts. (\<exists>m. calculateRewardPointsByMonth host (JArr ts) = Inr m)
           \<longleftrightarrow> list_all reads_amount ts \<and> list_all reads_date ts)
   \<and> (\<forall>ts. (\<exists>rs. addRewardPointsToTransactions (JArr ts) = Inr rs)
           \<longleftrightarrow> list_all reads_amount ts)"
proof (intro conjI allI impI)
  fix v show "(\<exists>p. calculateRewardPoints v = Inr p) \<longleftrightarrow> \<not> ToPrimitive_throws v"
    by (rule points_returns_iff)
next
  fix v assume a: "\<not> Array_isArray v"
  then show "calculateTotalRewardPoints v = Inr (Fin 0)"
    by (simp add: calculateTotalRewardPoints_def not_array_invalid)
  from a show "calculateRewardPointsByMonth host v = Inr []"
    by (simp add: calculateRewardPointsByMonth_def not_array_invalid)
  from a show "addRewardPointsToTransactions v = Inr []"
    by (simp add: addRewardPointsToTransactions_def not_array_invalid)
next
  fix ts show "(\<exists>n. calculateTotalRewardPoints (JArr ts) = Inr n) \<longleftrightarrow> list_all reads_amount ts"
    by (simp add: calculateTotalRewardPoints_def reduce_total_returns_iff)
next
  fix ts
  show "(\<exists>m. calculateRewardPointsByMonth host (JArr ts) = Inr m)
           \<longleftrightarrow> list_all reads_amount ts \<and> list_all reads_date ts"
  proof
    assume "\<exists>m. calculateRewardPointsByMonth host (JArr ts) = Inr m"
    then show "list_all reads_amount ts \<and> list_all reads_date ts"
      by (auto simp: calculateRewardPointsByMonth_def dest: forEach_month_reads)
  next
    assume "list_all reads_amount ts \<and> list_all reads_date ts"
    then show "\<exists>m. calculateRewardPointsByMonth host (JArr ts) = Inr m"
      using forEach_month_returns [of ts host] by blast
  qed
next
  fix ts
  show "(\<exists>rs. addRewardPointsToTransactions (JArr ts) = Inr rs) \<longleftrightarrow> list_all reads_amount ts"
    by (simp add: addRewardPointsToTransactions_def map_with_points_returns_iff)
qed

text \<open>
  An instance with malformed elements that are read: a number, and a record whose
  amount is no number and which has no date.
\<close>

theorem operations_return_witness:
  "\<not> Array_isArray (JStr ''not an array'')
   \<and> calculateTotalRewardPoints (JStr ''not an array'') = Inr (Fin 0)
   \<and> calculateRewardPointsByMonth utc_host (JStr ''not an array'') = Inr []
   \<and> addRewardPointsToTransactions (JStr ''not an array'') = Inr []
   \<and> list_all reads_amount [amount_only (JNum (Fin 120)), JNum (Fin 7), amount_only (JStr ''abc'')]
   \<and> list_all reads_date [amount_only (JNum (Fin 120)), JNum (Fin 7), amount_only (JStr ''abc'')]
   \<and> calculateTotalRewardPoints
        (JArr [amount_only (JNum (Fin 120)), JNum (Fin 7), amount_only (JStr ''abc'')])
      = Inr (Fin 90)
   \<and> calculateRewardPointsByMonth utc_host
        (JArr [amount_only (JNum (Fin 120)), JNum (Fin 7), amount_only (JStr ''abc'')])
      = Inr [(''NaN-NaN'', Fin 90)]
   \<and> addRewardPointsToTransactions
        (JArr [amount_only (JNum (Fin 120)), JNum (Fin 7), amount_only (JStr ''abc'')])
      = Inr [JObj [(''amount'', JNum (Fin 120)), (''rewardPoints'', JNum (Fin 90))],
             JObj [(''rewardPoints'', JNum (Fin 0))],
             JObj [(''amount'', JStr ''abc''), (''rewardPoints'', JNum (Fin 0))]]"
proof -
  let ?ts = "[amount_only (JNum (Fin 120)), JNum (Fin 7), amount_only (JStr ''abc'')]"
  note t = operations_return [of utc_host]
  have n: "\<not> Array_isArray (JStr ''not an array'')" by simp
  note 1 = t [THEN conjunct2, THEN conjunct1, rule_format, OF n]
  have a: "list_all reads_amount ?ts" and d: "list_all reads_date ?ts"
    by (simp_all add: reads_amount_def reads_date_def amount_only_def)
  from t [THEN conjunct2, THEN conjunct2, THEN conjunct1, rule_format, of ?ts] a
  obtain x where x: "calculateTotalRewardPoints (JArr ?ts) = Inr x" by blast
  have 2: "calculateTotalRewardPoints (JArr ?ts) = Inr (Fin 90)" by code_simp
  have 3: "calculateRewardPointsByMonth utc_host (JArr ?ts) = Inr [(''NaN-NaN'', Fin 90)]"
    by code_simp
  have 4: "addRewardPointsToTransactions (JArr ?ts)
      = Inr [JObj [(''amount'', JNum (Fin 120)), (''rewardPoints'', JNum (Fin 90))],
             JObj [(''rewardPoints'', JNum (Fin 0))],
             JObj [(''amount'', JStr ''abc''), (''rewardPoints'', JNum (Fin 0))]]"
    by code_simp
  from n 1 a d x 2 3 4 show ?thesis by simp
qed

text \<open>
  C7 as the specification states it fails on an array with a \<open>null\<close> element: reading
  \<open>transaction.amount\<close> (or \<open>transaction.date\<close>) of \<open>null\<close> throws a \<open>TypeError\<close>, and
  no operation catches it.
\<close>

theorem operations_throw_on_null_element:
  "calculateTotalRewardPoints (JArr [JNull]) = Inl TypeError
   \<and> calculateRewardPointsByMonth utc_host (JArr [JNull]) = Inl TypeError
   \<and> addRewardPointsToTransactions (JArr [JNull]) = Inl TypeError"
  by (simp add: calculateTotalRewardPoints_def calculateRewardPointsByMonth_def
      addRewardPointsToTransactions_def month_step_def with_points_def)

section \<open>Properties of the transactions with their points\<close>

lemma filter_obj_set:
  "filter (\<lambda>kv. fst kv \<noteq> k) (obj_set m k v) = filter (\<lambda>kv. fst kv \<noteq> k) m"
  by (induction m) auto

lemma enriched_with_points:
  assumes "plain_amount t"
  shows "\<exists>r. with_points t = Inr r \<and> enriched t r"
proof -
  from assms obtain fs where t: "t = JObj fs" by (cases t) (simp_all add: plain_amount_def)
  from with_points_reads [OF plain_amount_reads [OF assms]] obtain p
    where p: "points_of_record t = Inr p"
      and w: "with_points t = Inr (JObj (obj_set (own_props t) ''rewardPoints'' (JNum p)))"
    by blast
  from p t have "enriched t (JObj (obj_set (own_props t) ''rewardPoints'' (JNum p)))"
    by (simp add: enriched_def filter_obj_set map_of_obj_set)
  with w show ?thesis by blast
qed

lemma map_with_points_enriched:
  "list_all plain_amount ts \<Longrightarrow> \<exists>rs. map_with_points ts = Inr rs \<and> list_all2 enriched ts rs"
proof (induction ts)
  case Nil
  then show ?case by simp
next
  case (Cons t ts)
  from Cons.prems enriched_with_points [of t] obtain r
    where r: "with_points t = Inr r" "enriched t r" by auto
  from Cons obtain rs where rs: "map_with_points ts = Inr rs" "list_all2 enriched ts rs"
    by auto
  from r rs have "map_with_points (t # ts) = Inr (r # rs) \<and> list_all2 enriched (t # ts) (r # rs)"
    by simp
  then show ?case by blast
qed

text \<open>
  C9. Over an array of records whose amounts can be coerced,
  \<open>addRewardPointsToTransactions\<close> returns one record for each transaction, in the order
  of the input, with the fields of the transaction unchanged and \<open>rewardPoints\<close> equal to
  the points of its amount; for a transaction without a field \<open>rewardPoints\<close>, as the
  transactions of the data model are, the result is the transaction's fields followed
  by \<open>rewardPoints\<close>. A value that is not an array gives the empty sequence. The input
  is not written to: \<open>with_points\<close> builds the result from a copy of the properties.
\<close>

theorem addRewardPointsToTransactions_enriches:
  "(\<forall>ts. list_all plain_amount ts \<longrightarrow>
      (\<exists>rs. addRewardPointsToTransactions (JArr ts) = Inr rs \<and> list_all2 enriched ts rs))
   \<and> (\<forall>fs p. map_of fs ''rewardPoints'' = None \<and> points_of_record (JObj fs) = Inr p \<longrightarrow>
         with_points (JObj fs) = Inr (JObj (fs @ [(''rewardPoints'', JNum p)])))
   \<and> (\<forall>v. \<not> Array_isArray v \<longrightarrow> addRewardPointsToTransactions v = Inr [])"
proof (intro conjI allI impI)
  fix ts assume "list_all plain_amount ts"
  from map_with_points_enriched [OF this]
  show "\<exists>rs. addRewardPointsToTransactions (JArr ts) = Inr rs \<and> list_all2 enriched ts rs"
    by (simp add: addRewardPointsToTransactions_def)
next
  fix fs :: "(string \<times> jsval) list" and p
  assume a: "map_of fs ''rewardPoints'' = None \<and> points_of_record (JObj fs) = Inr p"
  then have "''rewardPoints'' \<notin> fst ` set fs" by (simp add: map_of_eq_None_iff)
  then have "obj_set fs ''rewardPoints'' (JNum p) = fs @ [(''rewardPoints'', JNum p)]"
    by (rule obj_set_new)
  with a show "with_points (JObj fs) = Inr (JObj (fs @ [(''rewardPoints'', JNum p)]))"
    by (auto simp: with_points_def points_of_record_def split: sum.splits)
next
  fix v assume "\<not> Array_isArray v"
  then show "addRewardPointsToTransactions v = Inr []"
    by (simp add: addRewardPointsToTransactions_def not_array_invalid)
qed

text \<open>The transactions of the repository's test for invalid amounts.\<close>

theorem addRewardPointsToTransactions_enriches_witness:
  "list_all plain_amount
     [JObj [(''transactionId'', JStr ''TXN001''), (''amount'', JNum (Fin 120))],
      JObj [(''transactionId'', JStr ''TXN002''), (''amount'', JNull)],
      JObj [(''transactionId'', JStr ''TXN003''), (''amount'', JNum (Fin (- 50)))]]
   \<and> addRewardPointsToTransactions
       (JArr [JObj [(''transactionId'', JStr ''TXN001''), (''amount'', JNum (Fin 120))],
              JObj [(''transactionId'', JStr ''TXN002''), (''amount'', JNull)],
              JObj [(''transactionId'', JStr ''TXN003''), (''amount'', JNum (Fin (- 50)))]])
     = Inr [JObj [(''transactionId'', JStr ''TXN001''), (''amount'', JNum (Fin 120)),
                  (''rewardPoints'', JNum (Fin 90))],
            JObj [(''transactionId'', JStr ''TXN002''), (''amount'', JNull),
                  (''rewardPoints'', JNum (Fin 0))],
            JObj [(''transactionId'', JStr ''TXN003''), (''amount'', JNum (Fin (- 50))),
                  (''rewardPoints'', JNum (Fin 0))]]
   \<and> list_all2 enriched
       [JObj [(''transactionId'', JStr ''TXN001''), (''amount'', JNum (Fin 120))],
        JObj [(''transactionId'', JStr ''TXN002''), (''amount'', JNull)],
        JObj [(''transactionId'', JStr ''TXN003''), (''amount'', JNum (Fin (- 50)))]]
       [JObj [(''transactionId'', JStr ''TXN001''), (''amount'', JNum (Fin 120)),
              (''rewardPoints'', JNum (Fin 90))],
        JObj [(''transactionId'', JStr ''TXN002''), (''amount'', JNull),
              (''rewardPoints'', JNum (Fin 0))],
        JObj [(''transactionId'', JStr ''TXN003''), (''amount'', JNum (Fin (- 50))),
              (''rewardPoints'', JNum (Fin 0))]]
   \<and> \<not> Array_isArray JUndefined \<and> addRewardPointsToTransactions JUndefined = Inr []"
proof -
  let ?ts = "[JObj [(''transactionId'', JStr ''TXN001''), (''amount'', JNum (Fin 120))],
      JObj [(''transactionId'', JStr ''TXN002''), (''amount'', JNull)],
      JObj [(''transactionId'', JStr ''TXN003''), (''amount'', JNum (Fin (- 50)))]]"
  note t = addRewardPointsToTransactions_enriches
  have p: "list_all plain_amount ?ts" by (simp add: plain_amount_def)
  have e: "addRewardPointsToTransactions (JArr ?ts)
     = Inr [JObj [(''transactionId'', JStr ''TXN001''), (''amount'', JNum (Fin 120)),
                  (''rewardPoints'', JNum (Fin 90))],
            JObj [(''transactionId'', JStr ''TXN002''), (''amount'', JNull),
                  (''rewardPoints'', JNum (Fin 0))],
            JObj [(''transactionId'', JStr ''TXN003''), (''amount'', JNum (Fin (- 50))),
                  (''rewardPoints'', JNum (Fin 0))]]"
    by code_simp
  from t [THEN conjunct1, rule_format, OF p] obtain rs
    where "addRewardPointsToTransactions (JArr ?ts) = Inr rs" and l: "list_all2 enriched ?ts rs"
    by blast
  with e have "rs = [JObj [(''transactionId'', JStr ''TXN001''), (''amount'', JNum (Fin 120)),
                  (''rewardPoints'', JNum (Fin 90))],
            JObj [(''transactionId'', JStr ''TXN002''), (''amount'', JNull),
                  (''rewardPoints'', JNum (Fin 0))],
            JObj [(''transactionId'', JStr ''TXN003''), (''amount'', JNum (Fin (- 50))),
                  (''rewardPoints'', JNum (Fin 0))]]" by simp
  with l have 2: "list_all2 enriched ?ts
       [JObj [(''transactionId'', JStr ''TXN001''), (''amount'', JNum (Fin 120)),
              (''rewardPoints'', JNum (Fin 90))],
        JObj [(''transactionId'', JStr ''TXN002''), (''amount'', JNull),
              (''rewardPoints'', JNum (Fin 0))],
        JObj [(''transactionId'', JStr ''TXN003''), (''amount'', JNum (Fin (- 50))),
              (''rewardPoints'', JNum (Fin 0))]]" by simp
  have 3: "addRewardPointsToTransactions JUndefined = Inr []"
    using t [THEN conjunct2, THEN conjunct2, rule_format, of JUndefined] by simp
  from p e 2 3 show ?thesis by simp
qed

section \<open>Properties of the pagination\<close>

lemma int_num_simps [simp]:
  "js_add (int_num a) (int_num b) = int_num (a + b)"
  "js_sub (int_num a) (int_num b) = int_num (a - b)"
  "js_mul (int_num a) (int_num b) = int_num (a * b)"
  "js_lt (int_num a) (int_num b) \<longleftrightarrow> a < b"
  "js_le (int_num a) (int_num b) \<longleftrightarrow> a \<le> b"
  "js_gt (int_num a) (int_num b) \<longleftrightarrow> b < a"
  "Math_max (int_num a) (int_num b) = int_num (max a b)"
  "Math_min (int_num a) (int_num b) = int_num (min a b)"
  by (auto simp: int_num_def js_sub_def js_gt_def)

lemma int_num_numerals:
  "Fin 0 = int_num 0" "Fin 1 = int_num 1" "Fin 2 = int_num 2"
  by (simp_all add: int_num_def)






text \<open>The slice of the page, as the positions of the specification.\<close>

lemma nth_upto_slice:
  "0 \<le> a \<Longrightarrow> b \<le> int (length xs) \<Longrightarrow>
     spec_sub_sequence xs (a + 1) b = take (nat b - nat a) (drop (nat a) xs)"
proof (induction "nat (b - a)" arbitrary: a)
  case 0
  then show ?case by (simp add: spec_sub_sequence_def)
next
  case (Suc n)
  then have lt: "a < b" and n: "n = nat (b - (a + 1))" by simp_all
  from lt have u: "[a + 1..b] = (a + 1) # [a + 1 + 1..b]" by (simp add: upto_rec1)
  from Suc.prems lt have len: "nat a < length xs" by simp
  from Suc.hyps(1) [OF n] Suc.prems
  have ih: "spec_sub_sequence xs (a + 1 + 1) b = take (nat b - nat (a + 1)) (drop (nat (a + 1)) xs)"
    by simp
  from lt Suc.prems have s: "nat b - nat a = Suc (nat b - nat (a + 1))" by simp
  from Suc.prems have a1: "nat (a + 1) = Suc (nat a)" by simp
  have "drop (nat a) xs = xs ! nat a # drop (Suc (nat a)) xs"
    using len by (simp add: Cons_nth_drop_Suc)
  then have "take (nat b - nat a) (drop (nat a) xs)
              = xs ! nat a # take (nat b - nat (a + 1)) (drop (nat (a + 1)) xs)"
    unfolding s a1 by simp
  with ih show ?case unfolding spec_sub_sequence_def u by simp
qed


lemma trunc_of_int [simp]: "trunc (of_int i) = i"
  by (simp add: trunc_def)

lemma slice_index_int:
  "0 \<le> i \<Longrightarrow> slice_index n (int_num i) = nat (min i (int n))"
  by (simp add: int_num_def)

lemma slice_int:
  assumes "0 \<le> a" and "0 \<le> b" and "b \<le> int (length xs)"
  shows "slice xs (int_num a) (int_num b) = spec_sub_sequence xs (a + 1) b"
proof (cases "a \<le> int (length xs)")
  case True
  with assms show ?thesis
    by (simp add: slice_def slice_index_int nth_upto_slice min_def Let_def)
next
  case False
  with assms have "b < a + 1" by simp
  then have "spec_sub_sequence xs (a + 1) b = []" by (simp add: spec_sub_sequence_def)
  moreover from False assms have "slice xs (int_num a) (int_num b) = []"
    by (simp add: slice_def slice_index_int min_def Let_def)
  ultimately show ?thesis by simp
qed

lemma total_pages_int:
  assumes "0 < k"
  shows "Math_ceil (js_div (int_num (int n)) (int_num k)) = int_num (spec_total_pages n k)"
  using assms by (simp add: int_num_def spec_total_pages_def)

lemma spec_total_pages_nonneg: "0 < k \<Longrightarrow> 0 \<le> spec_total_pages n k"
proof -
  assume "0 < k"
  then have "(0::rat) \<le> of_nat n / of_int k" by simp
  then have "(0::int) \<le> \<lceil>(of_nat n :: rat) / of_int k\<rceil>" by linarith
  then show ?thesis by (simp add: spec_total_pages_def)
qed

lemma spec_total_pages_empty: "spec_total_pages 0 k = 0"
  by (simp add: spec_total_pages_def)

lemma spec_effective_page_clamp:
  "0 \<le> tp \<Longrightarrow> spec_effective_page p tp = max 1 (min p tp)"
  by (auto simp: spec_effective_page_def)

lemma calculatePagination_int:
  assumes k: "0 < k"
  shows "calculatePagination (JArr xs) (int_num p) (int_num k) = spec_paginate xs p k"
proof -
  let ?n = "length xs"
  let ?tp = "spec_total_pages ?n k"
  let ?ep = "spec_effective_page p ?tp"
  let ?s0 = "(?ep - 1) * k"
  let ?e0 = "min (?s0 + k) (int ?n)"
  have tp: "0 \<le> ?tp" using k by (rule spec_total_pages_nonneg)
  then have ep: "?ep = max 1 (min p ?tp)" by (rule spec_effective_page_clamp)
  then have "1 \<le> ?ep" by simp
  with k have s0: "0 \<le> ?s0" by simp
  with k have e0: "0 \<le> ?e0" "?e0 \<le> int ?n" by simp_all
  have sl: "slice xs (int_num ?s0) (int_num ?e0) = spec_sub_sequence xs (?s0 + 1) ?e0"
    using s0 e0 by (rule slice_int)
  have ei: "min (?s0 + 1 + k - 1) (int ?n) = ?e0" by simp
  have ti: "Fin (of_nat ?n) = int_num (int ?n)" by (simp add: int_num_def)
  show ?thesis
    unfolding calculatePagination_def spec_paginate_def Let_def
    by (simp only: array_valid if_False elements.simps ti total_pages_int [OF k]
          int_num_numerals int_num_simps ep [symmetric] sl ei)
qed


text \<open>
  C5, as the code has it. For an array, an integer page and a positive integer page
  size, \<open>calculatePagination\<close> returns the page of the specification: \<open>totalItems\<close> the
  length, \<open>totalPages\<close> the ceiling of the quotient (\<open>0\<close> for no items), the requested
  page clamped, \<open>startIndex\<close> and \<open>endIndex\<close> by the formulas, the items of the positions
  \<open>startIndex\<close> to \<open>endIndex\<close>, and the two flags. A value that is not an array gives
  the fixed result of the code, whose \<open>startIndex\<close> is \<open>0\<close>.
\<close>

theorem calculatePagination_pages:
  "(\<forall>xs p k. 0 < k \<longrightarrow>
       calculatePagination (JArr xs) (int_num p) (int_num k) = spec_paginate xs p k)
   \<and> (\<forall>k. spec_total_pages 0 k = 0)
   \<and> (\<forall>v p k. \<not> Array_isArray v \<longrightarrow>
         calculatePagination v p k =
           \<lparr> items = [], currentPage = Fin 1, totalPages = Fin 0, totalItems = Fin 0,
             hasNextPage = False, hasPrevPage = False, startIndex = Fin 0, endIndex = Fin 0 \<rparr>)"
proof (intro conjI allI impI)
  fix xs p k assume "(0::int) < k"
  then show "calculatePagination (JArr xs) (int_num p) (int_num k) = spec_paginate xs p k"
    by (rule calculatePagination_int)
next
  fix k show "spec_total_pages 0 k = 0" by (rule spec_total_pages_empty)
next
  fix v p k assume "\<not> Array_isArray v"
  then show "calculatePagination v p k =
           \<lparr> items = [], currentPage = Fin 1, totalPages = Fin 0, totalItems = Fin 0,
             hasNextPage = False, hasPrevPage = False, startIndex = Fin 0, endIndex = Fin 0 \<rparr>"
    by (simp add: calculatePagination_def not_array_invalid)
qed

text \<open>
  The examples of the specification over 23 items, ten to a page; the empty array; and
  \<open>null\<close>.
\<close>

theorem calculatePagination_pages_witness:
  "(0::int) < 10
   \<and> calculatePagination (JArr (numbered_items 23)) (Fin 1) (Fin 10) =
       \<lparr> items = map (\<lambda>i. JNum (Fin i)) [1, 2, 3, 4, 5, 6, 7, 8, 9, 10],
         currentPage = Fin 1, totalPages = Fin 3, totalItems = Fin 23,
         hasNextPage = True, hasPrevPage = False, startIndex = Fin 1, endIndex = Fin 10 \<rparr>
   \<and> calculatePagination (JArr (numbered_items 23)) (Fin 3) (Fin 10) =
       \<lparr> items = map (\<lambda>i. JNum (Fin i)) [21, 22, 23],
         currentPage = Fin 3, totalPages = Fin 3, totalItems = Fin 23,
         hasNextPage = False, hasPrevPage = True, startIndex = Fin 21, endIndex = Fin 23 \<rparr>
   \<and> calculatePagination (JArr (numbered_items 23)) (Fin 99) (Fin 10) =
       calculatePagination (JArr (numbered_items 23)) (Fin 3) (Fin 10)
   \<and> calculatePagination (JArr []) (Fin 1) (Fin 10) =
       \<lparr> items = [], currentPage = Fin 1, totalPages = Fin 0, totalItems = Fin 0,
         hasNextPage = False, hasPrevPage = False, startIndex = Fin 1, endIndex = Fin 0 \<rparr>
   \<and> \<not> Array_isArray JNull
   \<and> calculatePagination JNull (Fin 1) (Fin 10) =
       \<lparr> items = [], currentPage = Fin 1, totalPages = Fin 0, totalItems = Fin 0,
         hasNextPage = False, hasPrevPage = False, startIndex = Fin 0, endIndex = Fin 0 \<rparr>"
proof -
  note t = calculatePagination_pages
  have k: "(0::int) < 10" by simp
  note c = t [THEN conjunct1, rule_format, OF k]
  have 1: "spec_paginate (numbered_items 23) 1 10 =
       \<lparr> items = map (\<lambda>i. JNum (Fin i)) [1, 2, 3, 4, 5, 6, 7, 8, 9, 10],
         currentPage = Fin 1, totalPages = Fin 3, totalItems = Fin 23,
         hasNextPage = True, hasPrevPage = False, startIndex = Fin 1, endIndex = Fin 10 \<rparr>"
    by code_simp
  have 3: "spec_paginate (numbered_items 23) 3 10 =
       \<lparr> items = map (\<lambda>i. JNum (Fin i)) [21, 22, 23],
         currentPage = Fin 3, totalPages = Fin 3, totalItems = Fin 23,
         hasNextPage = False, hasPrevPage = True, startIndex = Fin 21, endIndex = Fin 23 \<rparr>"
    by code_simp
  have 99: "spec_paginate (numbered_items 23) 99 10 = spec_paginate (numbered_items 23) 3 10"
    by code_simp
  have 0: "spec_paginate [] 1 10 =
       \<lparr> items = [], currentPage = Fin 1, totalPages = Fin 0, totalItems = Fin 0,
         hasNextPage = False, hasPrevPage = False, startIndex = Fin 1, endIndex = Fin 0 \<rparr>"
    by code_simp
  have z: "\<not> Array_isArray JNull" by simp
  note e = t [THEN conjunct2, THEN conjunct2, rule_format, OF z, of "Fin 1" "Fin 10"]
  from c [of "numbered_items 23" 1] c [of "numbered_items 23" 3] c [of "numbered_items 23" 99]
    c [of "[]" 1] 1 3 99 0 e
  show ?thesis by (simp add: int_num_def)
qed

text \<open>
  C5 as the specification states it fails. A value that is not an array is not treated
  as the empty array: its \<open>startIndex\<close> is \<open>0\<close>, that of the empty array is \<open>1\<close>, as the
  formula gives. And not every page size will do: with the page size \<open>-10\<close> the
  result has 13 of the 23 items, for the positions \<open>1\<close> to \<open>-10\<close>.
\<close>

theorem calculatePagination_not_as_stated:
  "startIndex (calculatePagination JNull (Fin 1) (Fin 10)) = Fin 0
   \<and> startIndex (calculatePagination (JArr []) (Fin 1) (Fin 10)) = Fin 1
   \<and> startIndex (calculatePagination (JArr (numbered_items 23)) (Fin 1) (Fin (- 10))) = Fin 1
   \<and> endIndex (calculatePagination (JArr (numbered_items 23)) (Fin 1) (Fin (- 10))) = Fin (- 10)
   \<and> length (items (calculatePagination (JArr (numbered_items 23)) (Fin 1) (Fin (- 10)))) = 13"
  by code_simp

end
